theory Spec2Isabelle
  imports Complex_Main
begin

section \<open>Mortgage dashboard: the amortization engine of streamlit\_app.py\<close>

text \<open>
  The engine has four functions: \<open>calculate_monthly_payment\<close>, \<open>amortization_schedule\<close>,
  \<open>amortization_schedule_with_payoffs\<close> and \<open>amortization_refinance\<close>.  Money and rates
  are Python floats in the source; here they are real numbers, so every statement below
  is about the arithmetic the code writes down, evaluated exactly (rounding of the
  floating-point operations is not part of the model).  Integers of the source
  (\<open>years\<close> of the two simulators, month numbers) are \<open>int\<close>.
\<close>

subsection \<open>Python arithmetic that can fail\<close>

datatype py_error = ZeroDivisionError | NotReal | IndexError | OverflowError | NonFinite

text \<open>
  \<open>x / y\<close> on floats raises \<open>ZeroDivisionError\<close> when \<open>y\<close> is zero.
\<close>

definition py_div :: "real \<Rightarrow> real \<Rightarrow> py_error + real" where
  "py_div x y = (if y = 0 then Inl ZeroDivisionError else Inr (x / y))"

text \<open>
  \<open>x ** y\<close> on floats: the exponent zero gives one; a zero base raises
  \<open>ZeroDivisionError\<close> for a negative exponent; a negative base with an exponent that
  is not a whole number leaves the reals (Python returns a complex number), which is the
  outcome \<open>NotReal\<close>; everything else is the real power.  A whole exponent is computed
  with \<open>powi\<close>, so that the function evaluates on numerals.
\<close>

definition py_pow :: "real \<Rightarrow> real \<Rightarrow> py_error + real" where
  "py_pow x y =
     (if y = 0 then Inr 1
      else if x = 0 then (if y < 0 then Inl ZeroDivisionError else Inr 0)
      else if y = of_int \<lfloor>y\<rfloor> then Inr (x powi \<lfloor>y\<rfloor>)
      else if x < 0 then Inl NotReal
      else Inr (x powr y))"

text \<open>\<open>int(x)\<close> on a float truncates towards zero.\<close>

definition py_int :: "real \<Rightarrow> int" where
  "py_int x = (if 0 \<le> x then \<lfloor>x\<rfloor> else \<lceil>x\<rceil>)"

subsection \<open>calculate\_monthly\_payment (lines 6--9)\<close>

definition calculate_monthly_payment :: "real \<Rightarrow> real \<Rightarrow> real \<Rightarrow> py_error + real" where
  "calculate_monthly_payment principal0 annual_interest_rate years =
     (let monthly_rate = annual_interest_rate / 12;
          n_payments = years * 12
      in case py_pow (1 + monthly_rate) (- n_payments) of
           Inl e \<Rightarrow> Inl e
         | Inr pw \<Rightarrow> py_div (monthly_rate * principal0) (1 - pw))"

subsection \<open>The rows of the returned tables\<close>

text \<open>
  \<open>row\<close> holds the columns every table has (and is the table of
  \<open>amortization_refinance\<close>); the two simulators add their principal columns.
\<close>

record row =
  month :: int
  balance :: real
  interest :: real
  payment :: real
  cum_interest :: real
  cum_payment :: real

record sched_row = row +
  principal_payment :: real

record payoff_row = row +
  sched_principal :: real
  extra_principal :: real

subsection \<open>amortization\_schedule (lines 11--41)\<close>

text \<open>
  The loop of lines 17--31.  The third argument counts the iterations that
  \<open>range(1, n_payments + 1)\<close> still has; each iteration appends one entry
  (balance, interest, principal, payment) and the loop stops after an entry whose balance
  is \<open>\<le> 0\<close>.
\<close>

fun schedule_loop :: "real \<Rightarrow> real \<Rightarrow> nat \<Rightarrow> real \<Rightarrow> (real \<times> real \<times> real \<times> real) list" where
  "schedule_loop monthly_rate pay 0 bal = []"
| "schedule_loop monthly_rate pay (Suc k) bal =
     (let intr = bal * monthly_rate;
          princ = pay - intr;
          clamped = princ > bal;
          princ = (if clamped then bal else princ);
          payment_this_month = (if clamped then intr + princ else pay);
          bal' = bal - princ
      in (bal', intr, princ, payment_this_month) #
         (if bal' \<le> 0 then [] else schedule_loop monthly_rate pay k bal'))"

text \<open>
  The data frame of lines 32--40: months \<open>1, 2, ...\<close>, and the running sums
  (\<open>cumsum\<close>) of the interest and payment columns.
\<close>

fun schedule_frame :: "int \<Rightarrow> real \<Rightarrow> real \<Rightarrow> (real \<times> real \<times> real \<times> real) list \<Rightarrow> sched_row list" where
  "schedule_frame m ci cp [] = []"
| "schedule_frame m ci cp ((b, i, p, pay) # rest) =
     \<lparr>month = m, balance = b, interest = i, payment = pay,
      cum_interest = ci + i, cum_payment = cp + pay, principal_payment = p\<rparr>
     # schedule_frame (m + 1) (ci + i) (cp + pay) rest"

definition amortization_schedule :: "real \<Rightarrow> real \<Rightarrow> int \<Rightarrow> py_error + sched_row list" where
  "amortization_schedule principal0 annual_interest_rate years =
     (let monthly_rate = annual_interest_rate / 12;
          n_payments = years * 12
      in case calculate_monthly_payment principal0 annual_interest_rate (of_int years) of
           Inl e \<Rightarrow> Inl e
         | Inr pay \<Rightarrow>
             Inr (schedule_frame 1 0 0 (schedule_loop monthly_rate pay (nat n_payments) principal0)))"

subsection \<open>amortization\_schedule\_with\_payoffs (lines 43--82)\<close>

text \<open>
  Line 56, \<open>lump_sum_month and month == lump_sum_month\<close>: \<open>None\<close> and \<open>0\<close> are
  false in Python.
\<close>

definition lump_now :: "int option \<Rightarrow> int \<Rightarrow> bool" where
  "lump_now lump_sum_month m =
     (case lump_sum_month of None \<Rightarrow> False | Some l \<Rightarrow> l \<noteq> 0 \<and> m = l)"

text \<open>
  The loop of lines 52--71, from month \<open>m\<close> with \<open>k\<close> iterations left.  An entry is
  (balance, interest, scheduled principal, extra principal, payment).
\<close>

fun payoffs_loop ::
  "real \<Rightarrow> real \<Rightarrow> real \<Rightarrow> int option \<Rightarrow> real \<Rightarrow> int \<Rightarrow> nat \<Rightarrow> real
   \<Rightarrow> (real \<times> real \<times> real \<times> real \<times> real) list" where
  "payoffs_loop monthly_rate base_payment monthly_extra lsm lsa m 0 bal = []"
| "payoffs_loop monthly_rate base_payment monthly_extra lsm lsa m (Suc k) bal =
     (let intr = bal * monthly_rate;
          sched = base_payment - intr;
          extra = monthly_extra;
          extra = (if lump_now lsm m then extra + lsa else extra);
          total_principal = sched + extra;
          clamped = total_principal > bal;
          total_principal = (if clamped then bal else total_principal);
          sched = (if clamped then min sched total_principal else sched);
          extra = (if clamped then total_principal - sched else extra);
          payment_this_month = intr + total_principal;
          bal' = bal - total_principal
      in (bal', intr, sched, extra, payment_this_month) #
         (if bal' \<le> 0 then []
          else payoffs_loop monthly_rate base_payment monthly_extra lsm lsa (m + 1) k bal'))"

fun payoffs_frame ::
  "int \<Rightarrow> real \<Rightarrow> real \<Rightarrow> (real \<times> real \<times> real \<times> real \<times> real) list \<Rightarrow> payoff_row list" where
  "payoffs_frame m ci cp [] = []"
| "payoffs_frame m ci cp ((b, i, s, e, pay) # rest) =
     \<lparr>month = m, balance = b, interest = i, payment = pay,
      cum_interest = ci + i, cum_payment = cp + pay,
      sched_principal = s, extra_principal = e\<rparr>
     # payoffs_frame (m + 1) (ci + i) (cp + pay) rest"

definition amortization_schedule_with_payoffs ::
  "real \<Rightarrow> real \<Rightarrow> int \<Rightarrow> real \<Rightarrow> int option \<Rightarrow> real \<Rightarrow> py_error + payoff_row list" where
  "amortization_schedule_with_payoffs principal0 annual_interest_rate years
       monthly_extra_payment lump_sum_month lump_sum_amount =
     (let monthly_rate = annual_interest_rate / 12;
          n_payments = years * 12
      in case calculate_monthly_payment principal0 annual_interest_rate (of_int years) of
           Inl e \<Rightarrow> Inl e
         | Inr base_payment \<Rightarrow>
             Inr (payoffs_frame 1 0 0
                   (payoffs_loop monthly_rate base_payment monthly_extra_payment
                      lump_sum_month lump_sum_amount 1 (nat n_payments) principal0)))"

subsection \<open>amortization\_refinance (lines 84--120)\<close>

text \<open>
  The loop of lines 94--112: \<open>m\<close> is the loop variable, \<open>k\<close> the iterations left; the
  running totals are threaded through.
\<close>

fun refinance_loop ::
  "real \<Rightarrow> real \<Rightarrow> int \<Rightarrow> int \<Rightarrow> nat \<Rightarrow> real \<Rightarrow> real \<Rightarrow> real \<Rightarrow> row list" where
  "refinance_loop monthly_rate monthly_payment start_month m 0 bal cum_int cum_pay = []"
| "refinance_loop monthly_rate monthly_payment start_month m (Suc k) bal cum_int cum_pay =
     (let intr = bal * monthly_rate;
          princ = monthly_payment - intr;
          clamped = princ > bal;
          princ = (if clamped then bal else princ);
          payment_m = (if clamped then intr + princ else monthly_payment);
          bal' = bal - princ;
          cum_int' = cum_int + intr;
          cum_pay' = cum_pay + payment_m
      in \<lparr>month = start_month + m, balance = bal', interest = intr, payment = payment_m,
          cum_interest = cum_int', cum_payment = cum_pay'\<rparr> #
         (if bal' \<le> 0 then []
          else refinance_loop monthly_rate monthly_payment start_month (m + 1) k bal'
                 cum_int' cum_pay'))"

definition amortization_refinance ::
  "real \<Rightarrow> real \<Rightarrow> real \<Rightarrow> real \<Rightarrow> int \<Rightarrow> real \<Rightarrow> real \<Rightarrow> row list" where
  "amortization_refinance principal0 annual_interest_rate years monthly_payment start_month
       cum_interest_offset cum_payment_offset =
     (let monthly_rate = annual_interest_rate / 12;
          n_payments = py_int (years * 12)
      in refinance_loop monthly_rate monthly_payment start_month 1 (nat n_payments)
           principal0 cum_interest_offset cum_payment_offset)"

subsection \<open>The balance recurrence shared by the three loops\<close>

text \<open>
  In all three loops the closing balance of a month is the opening balance plus interest
  minus the nominal payment of the month, clamped at zero, and the loop stops after the
  first balance \<open>\<le> 0\<close>.  \<open>balance_trace q ps b\<close> is that sequence of closing
  balances for the growth factor \<open>q = 1 + monthly_rate\<close> and the nominal payments
  \<open>ps\<close> of the coming months; it is used to reason about the loops, which are shown
  below to produce exactly these balances.
\<close>

fun balance_trace :: "real \<Rightarrow> real list \<Rightarrow> real \<Rightarrow> real list" where
  "balance_trace q [] b = []"
| "balance_trace q (p # ps) b =
     (let b' = (if b * q - p < 0 then 0 else b * q - p)
      in b' # (if b' \<le> 0 then [] else balance_trace q ps b'))"

text \<open>
  The nominal payments of \<open>payoffs_loop\<close>: scheduled payment plus monthly extra, plus
  the lump sum in its month.
\<close>

definition nominal_payments :: "real \<Rightarrow> real \<Rightarrow> int option \<Rightarrow> real \<Rightarrow> int \<Rightarrow> nat \<Rightarrow> real list" where
  "nominal_payments base_payment monthly_extra lsm lsa m k =
     map (\<lambda>i. base_payment + monthly_extra + (if lump_now lsm (m + int i) then lsa else 0)) [0..<k]"

text \<open>
  A sequence of closing balances pays a loan down from \<open>start\<close>: it is not empty,
  strictly decreasing (the first one below \<open>start\<close>), ends with exactly zero, and zero
  occurs nowhere before the last entry.
\<close>

definition pays_down :: "real \<Rightarrow> real list \<Rightarrow> bool" where
  "pays_down start bs =
     (bs \<noteq> [] \<and> sorted_wrt (>) (start # bs) \<and> last bs = 0 \<and> 0 \<notin> set (butlast bs))"

subsection \<open>The baseline read as a schedule with extras\<close>

text \<open>
  A row of the plain schedule as a row of the schedule with extras: the same month,
  balance, interest, payment and running totals, the principal as scheduled principal,
  and no extra principal.
\<close>

definition baseline_as_payoff_row :: "sched_row \<Rightarrow> payoff_row" where
  "baseline_as_payoff_row r =
     \<lparr>month = month r, balance = balance r, interest = interest r, payment = payment r,
      cum_interest = cum_interest r, cum_payment = cum_payment r,
      sched_principal = principal_payment r, extra_principal = 0\<rparr>"

subsection \<open>The transition record of main (lines 144--150)\<close>

text \<open>
  \<open>df.iloc[i]\<close>: a negative position counts from the end, a position outside the table
  raises \<open>IndexError\<close>.
\<close>

definition iloc :: "'a list \<Rightarrow> int \<Rightarrow> py_error + 'a" where
  "iloc xs i =
     (if 0 \<le> i \<and> i < int (length xs) then Inr (xs ! nat i)
      else if i < 0 \<and> - int (length xs) \<le> i then Inr (xs ! nat (int (length xs) + i))
      else Inl IndexError)"

text \<open>
  Lines 144--147: the row of the pre-refinance schedule from which \<open>main\<close> reads the
  carry balance and the cumulative totals.
\<close>

definition transition_record :: "payoff_row list \<Rightarrow> int \<Rightarrow> py_error + payoff_row" where
  "transition_record pre_refi lump_month =
     (if lump_month \<le> int (length pre_refi) then iloc pre_refi (lump_month - 1)
      else iloc pre_refi (- 1))"

subsection \<open>Principal paid, read off the balances\<close>

text \<open>
  The principal paid in a month is the opening balance minus the closing balance; the
  opening balance of the first month is the loan's principal, that of a later month the
  closing balance of the month before.
\<close>

fun principal_paid :: "real \<Rightarrow> real list \<Rightarrow> real list" where
  "principal_paid opening [] = []"
| "principal_paid opening (b # bs) = (opening - b) # principal_paid b bs"

section \<open>Auxiliary facts\<close>

subsection \<open>Frames and traces\<close>

lemma nominal_payments_Suc:
  "nominal_payments bp me lsm lsa m (Suc k) =
     (bp + me + (if lump_now lsm m then lsa else 0)) # nominal_payments bp me lsm lsa (m + 1) k"
proof -
  have "[0..<Suc k] = 0 # map Suc [0..<k]"
    by (simp add: upt_rec[of 0 "Suc k"] map_Suc_upt del: upt_Suc)
  then show ?thesis
    unfolding nominal_payments_def
    by (simp add: o_def add.assoc add.commute[of 1] del: upt_Suc)
qed

lemma length_schedule_frame [simp]: "length (schedule_frame m ci cp xs) = length xs"
  by (induction m ci cp xs rule: schedule_frame.induct) auto

lemma balance_schedule_frame [simp]: "map balance (schedule_frame m ci cp xs) = map fst xs"
  by (induction m ci cp xs rule: schedule_frame.induct) auto

lemma length_payoffs_frame [simp]: "length (payoffs_frame m ci cp xs) = length xs"
  by (induction m ci cp xs rule: payoffs_frame.induct) auto

lemma balance_payoffs_frame [simp]: "map balance (payoffs_frame m ci cp xs) = map fst xs"
  by (induction m ci cp xs rule: payoffs_frame.induct) auto

lemma schedule_loop_trace:
  "map fst (schedule_loop mr pay k b) = balance_trace (1 + mr) (replicate k pay) b"
proof (induction k arbitrary: b)
  case 0
  show ?case by simp
next
  case (Suc k)
  show ?case
    using Suc[of "b * (1 + mr) - pay"]
    by (auto simp: Let_def algebra_simps)
qed

lemma refinance_loop_trace:
  "map balance (refinance_loop mr mp sm m k b ci cp) = balance_trace (1 + mr) (replicate k mp) b"
proof (induction k arbitrary: m b ci cp)
  case 0
  show ?case by simp
next
  case (Suc k)
  show ?case
    using Suc[of "m + 1" "b * (1 + mr) - mp"]
    by (auto simp: Let_def algebra_simps)
qed

lemma payoffs_loop_trace:
  "map fst (payoffs_loop mr bp me lsm lsa m k b) =
     balance_trace (1 + mr) (nominal_payments bp me lsm lsa m k) b"
proof (induction k arbitrary: m b)
  case 0
  show ?case by (simp add: nominal_payments_def)
next
  case (Suc k)
  show ?case
    using Suc[of "m + 1"]
    by (auto simp: Let_def nominal_payments_Suc algebra_simps)
qed


lemma length_balance_trace: "length (balance_trace q ps b) \<le> length ps"
  by (induction ps arbitrary: b) (auto simp: Let_def)

lemma balance_trace_Nil [simp]: "balance_trace q ps b = [] \<longleftrightarrow> ps = []"
  by (cases ps) (auto simp: Let_def)

lemma balance_trace_short:
  "length (balance_trace q ps b) < length ps \<Longrightarrow>
     balance_trace q ps b \<noteq> [] \<and> last (balance_trace q ps b) \<le> 0"
  by (induction ps arbitrary: b) (auto simp: Let_def)

lemma balance_trace_nonneg: "x \<in> set (balance_trace q ps b) \<Longrightarrow> 0 \<le> x"
  by (induction ps arbitrary: b) (auto simp: Let_def split: if_splits)

lemma balance_trace_mono:
  "list_all2 (\<le>) ps ps' \<Longrightarrow> b' \<le> b \<Longrightarrow> 0 \<le> q \<Longrightarrow>
     length (balance_trace q ps' b') \<le> length (balance_trace q ps b)"
proof (induction ps ps' arbitrary: b b' rule: list_all2_induct)
  case Nil
  show ?case by simp
next
  case (Cons p ps p' ps')
  have le: "b' * q - p' \<le> b * q - p"
    using Cons.hyps(1) Cons.prems by (simp add: mult_right_mono diff_mono)
  show ?case
  proof (cases "b * q - p \<le> 0")
    case True
    with le have "b' * q - p' \<le> 0" by simp
    with True show ?thesis by (simp add: Let_def)
  next
    case False
    show ?thesis
    proof (cases "b' * q - p' \<le> 0")
      case True
      then show ?thesis using False by (simp add: Let_def)
    next
      case pos: False
      have "length (balance_trace q ps' (b' * q - p')) \<le> length (balance_trace q ps (b * q - p))"
        using Cons.IH[OF le Cons.prems(2)] .
      with False pos show ?thesis by (simp add: Let_def)
    qed
  qed
qed


lemma pays_down_single: "0 < b \<Longrightarrow> pays_down b [0]"
  by (simp add: pays_down_def)

lemma pays_down_Cons:
  assumes "pays_down nb tr" and "nb < b"
  shows "pays_down b (nb # tr)"
proof -
  from assms(1) have ne: "tr \<noteq> []" and srt: "sorted_wrt (>) (nb # tr)"
    and lst: "last tr = 0" and nz: "0 \<notin> set (butlast tr)"
    by (simp_all add: pays_down_def)
  from srt have below: "\<forall>x\<in>set tr. x < nb" by simp
  have "0 \<in> set tr" using ne lst last_in_set by metis
  with below have "0 < nb" by auto
  moreover have "\<forall>x\<in>set (nb # tr). x < b" using below assms(2) by auto
  ultimately show ?thesis
    using ne srt lst nz by (simp add: pays_down_def)
qed

lemma annuity_step:
  fixes b q pay :: real
  assumes q: "1 < q" and inv: "b * (q - 1) * q ^ Suc k \<le> pay * (q ^ Suc k - 1)"
    and nb: "nb \<le> b * q - pay"
  shows "nb * (q - 1) * q ^ k \<le> pay * (q ^ k - 1)"
proof -
  have pos: "0 \<le> (q - 1) * q ^ k" using q by simp
  have "nb * ((q - 1) * q ^ k) \<le> (b * q - pay) * ((q - 1) * q ^ k)"
    using nb pos by (rule mult_right_mono)
  also have "\<dots> = b * (q - 1) * q ^ Suc k - pay * (q - 1) * q ^ k"
    by (simp add: algebra_simps)
  also have "\<dots> \<le> pay * (q ^ Suc k - 1) - pay * (q - 1) * q ^ k"
    using inv by simp
  also have "\<dots> = pay * (q ^ k - 1)"
    by (simp add: algebra_simps)
  finally show ?thesis by (simp add: mult.assoc)
qed

lemma annuity_covers_interest:
  fixes b q pay :: real
  assumes q: "1 < q" and b: "0 < b" and inv: "b * (q - 1) * q ^ k \<le> pay * (q ^ k - 1)"
  shows "b * (q - 1) < pay"
proof -
  have qk: "1 \<le> q ^ k" using q by (simp add: one_le_power)
  have lhs: "0 < b * (q - 1) * q ^ k" using q b qk by simp
  have "0 < pay"
  proof (rule ccontr)
    assume "\<not> 0 < pay"
    then have "pay * (q ^ k - 1) \<le> 0" using qk by (simp add: mult_nonpos_nonneg)
    with inv lhs show False by simp
  qed
  then have "pay * (q ^ k - 1) < pay * q ^ k" by (simp add: algebra_simps)
  with inv have "b * (q - 1) * q ^ k < pay * q ^ k" by simp
  then show ?thesis using qk by simp
qed

lemma balance_trace_pays_down:
  assumes "1 < q" and "0 < b" and "\<forall>p\<in>set ps. pay \<le> p"
    and "b * (q - 1) * q ^ length ps \<le> pay * (q ^ length ps - 1)"
  shows "pays_down b (balance_trace q ps b)"
  using assms(2-)
proof (induction ps arbitrary: b)
  case Nil
  then have "b * (q - 1) \<le> 0" by simp
  moreover have "0 < b * (q - 1)" using Nil.prems(1) assms(1) by simp
  ultimately show ?case by simp
next
  case (Cons p ps)
  have inv: "b * (q - 1) * q ^ Suc (length ps) \<le> pay * (q ^ Suc (length ps) - 1)"
    using Cons.prems(3) by simp
  have "b * (q - 1) < pay"
    using annuity_covers_interest[OF assms(1) Cons.prems(1) inv] .
  moreover have "pay \<le> p" using Cons.prems(2) by simp
  ultimately have lt: "b * q - p < b" by (simp add: algebra_simps)
  show ?case
  proof (cases "b * q - p \<le> 0")
    case True
    then have "balance_trace q (p # ps) b = [0]" by (auto simp: Let_def)
    then show ?thesis using pays_down_single[OF Cons.prems(1)] by simp
  next
    case False
    then have pos: "0 < b * q - p" by simp
    have tr: "balance_trace q (p # ps) b = (b * q - p) # balance_trace q ps (b * q - p)"
      using False by (simp add: Let_def)
    have "b * q - p \<le> b * q - pay" using \<open>pay \<le> p\<close> by simp
    then have inv': "(b * q - p) * (q - 1) * q ^ length ps \<le> pay * (q ^ length ps - 1)"
      using annuity_step[OF assms(1) inv] by blast
    have "pays_down (b * q - p) (balance_trace q ps (b * q - p))"
      using Cons.IH[OF pos _ inv'] Cons.prems(2) by simp
    then show ?thesis unfolding tr using lt by (rule pays_down_Cons)
  qed
qed

subsection \<open>The standard payment\<close>

lemma py_pow_whole:
  assumes "x \<noteq> 0"
  shows "py_pow x (of_int n) = Inr (x powi n)"
  using assms by (simp add: py_pow_def)

lemma standard_payment_whole:
  fixes r :: real
  assumes r: "0 < r" and n: "0 < n" and y: "years * 12 = of_int n"
  shows "calculate_monthly_payment p r years =
           Inr (r / 12 * p / (1 - (1 + r / 12) powi (- n)))"
    and "(1 + r / 12) powi (- n) < 1"
proof -
  have q: "1 < 1 + r / 12" using r by simp
  have "1 < (1 + r / 12) ^ nat n" using q n by (simp add: one_less_power)
  then have inv: "inverse ((1 + r / 12) ^ nat n) < 1"
    by (simp add: inverse_less_1_iff)
  have pw: "(1 + r / 12) powi (- n) = inverse ((1 + r / 12) ^ nat n)"
    using n by (simp add: power_int_def power_inverse)
  show lt: "(1 + r / 12) powi (- n) < 1" using inv pw by simp
  have "py_pow (1 + r / 12) (- (years * 12)) = Inr ((1 + r / 12) powi (- n))"
    using py_pow_whole[of "1 + r / 12" "- n"] q y by simp
  then show "calculate_monthly_payment p r years =
           Inr (r / 12 * p / (1 - (1 + r / 12) powi (- n)))"
    using lt by (simp add: calculate_monthly_payment_def Let_def py_div_def)
qed

subsection \<open>Zero extras, and comparing extras\<close>

lemma payoffs_loop_no_extra:
  "payoffs_loop mr bp 0 None la m k b =
     map (\<lambda>(b, i, p, pay). (b, i, p, 0, pay)) (schedule_loop mr bp k b)"
proof (induction k arbitrary: m b)
  case 0
  show ?case by simp
next
  case (Suc k)
  show ?case
    using Suc[of "m + 1"]
    by (auto simp: Let_def lump_now_def)
qed

lemma payoffs_frame_no_extra:
  "payoffs_frame m ci cp (map (\<lambda>(b, i, p, pay). (b, i, p, 0, pay)) xs) =
     map baseline_as_payoff_row (schedule_frame m ci cp xs)"
  by (induction m ci cp xs rule: schedule_frame.induct) (auto simp: baseline_as_payoff_row_def)

lemma standard_payment_years:
  fixes r :: real and years :: int
  assumes "0 < r" and "0 < years"
  shows "\<exists>bp. calculate_monthly_payment p r (of_int years) = Inr bp"
proof -
  have n: "0 < years * 12" using assms(2) by simp
  have y: "real_of_int years * 12 = of_int (years * 12)" by simp
  show ?thesis using standard_payment_whole(1)[OF assms(1) n y] by blast
qed

lemma nominal_payments_le:
  assumes "e1 \<le> e2" and "l1 \<le> l2"
  shows "list_all2 (\<le>) (nominal_payments bp e1 lm l1 m k) (nominal_payments bp e2 lm l2 m k)"
  using assms by (simp add: nominal_payments_def list_all2_conv_all_nth)

lemma replicate_le_nominal_payments:
  assumes "0 \<le> e" and "0 \<le> l"
  shows "list_all2 (\<le>) (replicate k bp) (nominal_payments bp e lm l m k)"
  using assms by (simp add: nominal_payments_def list_all2_conv_all_nth)

lemma length_payoffs_loop:
  "length (payoffs_loop mr bp me lsm lsa m k b) =
     length (balance_trace (1 + mr) (nominal_payments bp me lsm lsa m k) b)"
  using arg_cong[OF payoffs_loop_trace, of length] by simp

lemma length_schedule_loop:
  "length (schedule_loop mr pay k b) = length (balance_trace (1 + mr) (replicate k pay) b)"
  using arg_cong[OF schedule_loop_trace, of length] by simp

subsection \<open>Powers that grow\<close>

lemma py_pow_one: "py_pow 1 y = Inr 1"
  by (simp add: py_pow_def)

lemma py_pow_grows:
  assumes "1 < x" and "0 < y"
  shows "\<exists>pw. py_pow x y = Inr pw \<and> 1 < pw"
proof (cases "y = of_int \<lfloor>y\<rfloor>")
  case True
  have "0 < \<lfloor>y\<rfloor>" using assms(2) True by linarith
  then have "x powi \<lfloor>y\<rfloor> = x ^ nat \<lfloor>y\<rfloor>" and "0 < nat \<lfloor>y\<rfloor>"
    by (simp_all add: power_int_def)
  then have "1 < x powi \<lfloor>y\<rfloor>" using assms(1) by (simp add: one_less_power)
  then show ?thesis using True assms by (simp add: py_pow_def)
next
  case False
  have "1 < x powr y" using assms by (simp add: gr_one_powr)
  then show ?thesis using False assms by (simp add: py_pow_def)
qed

subsection \<open>The loop bound of the refinance schedule\<close>

lemma nat_py_int: "nat (py_int x) = nat \<lfloor>x\<rfloor>"
proof (cases "0 \<le> x")
  case True
  then show ?thesis by (simp add: py_int_def)
next
  case False
  then have "\<lceil>x\<rceil> \<le> 0" and "\<lfloor>x\<rfloor> \<le> 0" by (simp_all add: ceiling_le_iff floor_le_iff)
  with False show ?thesis by (simp add: py_int_def)
qed

lemma balance_last_map: "rows \<noteq> [] \<Longrightarrow> balance (last rows) = last (map balance rows)"
  by (simp add: last_map)

lemma eleven_months:
  "length (amortization_refinance 16 (3 / 4) (95 / 96) (1 / 2) 0 0 0) = 11"
  by (simp add: amortization_refinance_def py_int_def Let_def eval_nat_numeral)

subsection \<open>A refinance from a zero balance\<close>

lemma iloc_last: "xs \<noteq> [] \<Longrightarrow> iloc xs (- 1) = Inr (last xs)"
  by (cases xs rule: rev_cases) (simp_all add: iloc_def)

lemma refinance_loop_zero_balance:
  assumes "0 \<le> mp"
  shows "refinance_loop mr mp sm m (Suc k) 0 ci cp =
           [\<lparr>month = sm + m, balance = 0, interest = 0, payment = 0,
             cum_interest = ci, cum_payment = cp\<rparr>]"
  using assms by (auto simp: Let_def)

subsection \<open>Accounting in the loops\<close>

lemma schedule_loop_accounts:
  "list_all (\<lambda>(b, i, p, pay). pay = i + p) (schedule_loop mr pay k b0)
   \<and> map (\<lambda>(b, i, p, pay). p) (schedule_loop mr pay k b0) =
       principal_paid b0 (map fst (schedule_loop mr pay k b0))"
  by (induction k arbitrary: b0) (auto simp: Let_def)

lemma schedule_frame_accounts:
  "list_all (\<lambda>x. payment x = interest x + principal_payment x) (schedule_frame m ci cp xs) =
     list_all (\<lambda>(b, i, p, pay). pay = i + p) xs"
  "map principal_payment (schedule_frame m ci cp xs) = map (\<lambda>(b, i, p, pay). p) xs"
  by (induction m ci cp xs rule: schedule_frame.induct) auto

lemma payoffs_loop_accounts:
  "list_all (\<lambda>(b, i, s, e, pay). pay = i + (s + e)) (payoffs_loop mr bp me lsm lsa m k b0)
   \<and> map (\<lambda>(b, i, s, e, pay). s + e) (payoffs_loop mr bp me lsm lsa m k b0) =
       principal_paid b0 (map fst (payoffs_loop mr bp me lsm lsa m k b0))"
  by (induction k arbitrary: b0 m) (auto simp: Let_def)

lemma payoffs_loop_split:
  assumes "0 \<le> me" and "0 \<le> lsa"
  shows "list_all (\<lambda>(b, i, s, e, pay). 0 \<le> e \<and> s \<le> s + e) (payoffs_loop mr bp me lsm lsa m k b0)"
  using assms by (induction k arbitrary: b0 m) (auto simp: Let_def)

lemma payoffs_frame_accounts:
  "list_all (\<lambda>x. payment x = interest x + (sched_principal x + extra_principal x))
       (payoffs_frame m ci cp xs) =
     list_all (\<lambda>(b, i, s, e, pay). pay = i + (s + e)) xs"
  "map (\<lambda>x. sched_principal x + extra_principal x) (payoffs_frame m ci cp xs) =
     map (\<lambda>(b, i, s, e, pay). s + e) xs"
  "list_all (\<lambda>x. 0 \<le> extra_principal x \<and> sched_principal x \<le> sched_principal x + extra_principal x)
       (payoffs_frame m ci cp xs) =
     list_all (\<lambda>(b, i, s, e, pay). 0 \<le> e \<and> s \<le> s + e) xs"
  by (induction m ci cp xs rule: payoffs_frame.induct) auto

lemma refinance_loop_accounts:
  "map payment (refinance_loop mr mp sm m k b0 ci cp) =
     map2 (+) (map interest (refinance_loop mr mp sm m k b0 ci cp))
       (principal_paid b0 (map balance (refinance_loop mr mp sm m k b0 ci cp)))"
  by (induction k arbitrary: b0 m ci cp) (auto simp: Let_def)

lemma amortization_schedule_returns:
  fixes rate :: real and years :: int
  assumes "0 < rate" and "0 < years"
  shows "\<exists>rows. amortization_schedule principal0 rate years = Inr rows"
proof -
  obtain bp where "calculate_monthly_payment principal0 rate (of_int years) = Inr bp"
    using standard_payment_years[OF assms] by blast
  then show ?thesis by (simp add: amortization_schedule_def Let_def)
qed

lemma with_payoffs_returns:
  fixes rate :: real and years :: int
  assumes "0 < rate" and "0 < years"
  shows "\<exists>rows. amortization_schedule_with_payoffs principal0 rate years me lsm lsa = Inr rows"
proof -
  obtain bp where "calculate_monthly_payment principal0 rate (of_int years) = Inr bp"
    using standard_payment_years[OF assms] by blast
  then show ?thesis by (simp add: amortization_schedule_with_payoffs_def Let_def)
qed

subsection \<open>The standard payment amortises the loan\<close>

lemma standard_payment_amortises:
  fixes r p years bp :: real
  assumes r: "0 < r" and n: "0 < n" and y: "years * 12 = of_int n"
    and bp: "calculate_monthly_payment p r years = Inr bp"
  shows "p * (1 + r / 12 - 1) * (1 + r / 12) ^ nat n = bp * ((1 + r / 12) ^ nat n - 1)"
proof -
  define Q where "Q = (1 + r / 12) ^ nat n"
  have "1 < 1 + r / 12" using r by simp
  then have Q: "1 < Q" unfolding Q_def using n by (simp add: one_less_power)
  have pw: "(1 + r / 12) powi (- n) = inverse Q"
    using n by (simp add: power_int_def power_inverse Q_def)
  have "bp = r / 12 * p / (1 - inverse Q)"
    using standard_payment_whole(1)[OF r n y, of p] bp pw by simp
  also have "\<dots> = r / 12 * p * Q / (Q - 1)"
    using Q by (simp add: field_simps)
  finally have "bp = r / 12 * p * Q / (Q - 1)" .
  moreover have "Q - 1 \<noteq> 0" using Q by simp
  ultimately have "bp * (Q - 1) = r / 12 * p * Q"
    using nonzero_divide_eq_eq[of "Q - 1" "r / 12 * p * Q" bp] by metis
  then show ?thesis unfolding Q_def by (simp add: mult.commute mult.left_commute)
qed

lemma nominal_payments_ge:
  assumes "0 \<le> me" and "0 \<le> lsa"
  shows "\<forall>p\<in>set (nominal_payments bp me lsm lsa m k). bp \<le> p"
  using assms by (auto simp: nominal_payments_def)

lemma length_nominal_payments [simp]: "length (nominal_payments bp me lsm lsa m k) = k"
  by (simp add: nominal_payments_def)

lemma py_int_of_int: "0 \<le> n \<Longrightarrow> py_int (of_int n) = n"
  by (simp add: py_int_def)

lemma quarter_year_payment: "calculate_monthly_payment 16 (3 / 4) (1 / 4) = Inr (4913 / 817)"
  by (simp add: calculate_monthly_payment_def py_pow_def py_div_def power_int_def power_divide
      eval_nat_numeral)

subsection \<open>A lump sum that covers the balance\<close>

lemma balance_trace_lump:
  fixes q bp lsa b :: real
  assumes "1 \<le> q" and "0 < b" and "b * (q - 1) < bp" and "\<forall>p\<in>set ps. bp \<le> p"
    and "j < length ps" and "bp + lsa \<le> ps ! j"
    and "j = 0 \<or> (j \<le> length (balance_trace q ps b) \<and> 0 < balance_trace q ps b ! (j - 1))"
    and "(if j = 0 then b else balance_trace q ps b ! (j - 1)) \<le> lsa"
  shows "length (balance_trace q ps b) = Suc j \<and> last (balance_trace q ps b) = 0"
  using assms(2-)
proof (induction j arbitrary: ps b)
  case 0
  then obtain p ps' where ps: "ps = p # ps'" by (cases ps) auto
  have "bp + b \<le> p" using 0 ps by simp
  then have "b * q - p \<le> b * (q - 1) - bp" by (simp add: algebra_simps)
  with 0(2) have "b * q - p < 0" by simp
  then show ?case by (simp add: ps Let_def)
next
  case (Suc j)
  then obtain p ps' where ps: "ps = p # ps'" by (cases ps) auto
  have p: "bp \<le> p" using Suc.prems(3) ps by simp
  have "b * q - p \<le> b * q - bp" using p by simp
  also have "\<dots> < b" using Suc.prems(2) by (simp add: algebra_simps)
  finally have lt: "b * q - p < b" .
  show ?case
  proof (cases "b * q - p \<le> 0")
    case True
    then have "balance_trace q ps b = [0]" by (auto simp: ps Let_def)
    with Suc.prems(6) show ?thesis by auto
  next
    case False
    define nb where "nb = b * q - p"
    have pos: "0 < nb" using False by (simp add: nb_def)
    have tr: "balance_trace q ps b = nb # balance_trace q ps' nb"
      using False by (simp add: ps Let_def nb_def)
    have "nb * (q - 1) \<le> b * (q - 1)"
      using lt assms(1) by (simp add: nb_def mult_right_mono)
    then have cover: "nb * (q - 1) < bp" using Suc.prems(2) by simp
    have alive: "j = 0 \<or> (j \<le> length (balance_trace q ps' nb) \<and> 0 < balance_trace q ps' nb ! (j - 1))"
      using Suc.prems(6) unfolding tr by (cases j) auto
    have big: "(if j = 0 then nb else balance_trace q ps' nb ! (j - 1)) \<le> lsa"
      using Suc.prems(7) unfolding tr by (cases j) auto
    have "length (balance_trace q ps' nb) = Suc j \<and> last (balance_trace q ps' nb) = 0"
      using Suc.IH[OF pos cover _ _ _ alive big] Suc.prems(3,4,5) ps by simp
    then show ?thesis unfolding tr by auto
  qed
qed

lemma nth_nominal_payments:
  "j < k \<Longrightarrow> nominal_payments bp me lsm lsa m k ! j =
      bp + me + (if lump_now lsm (m + int j) then lsa else 0)"
  by (simp add: nominal_payments_def)

lemma one_year_payment: "calculate_monthly_payment 16 (3 / 4) 1 = Inr (17 ^ 12 / (17 ^ 12 - 16 ^ 12))"
  by (simp add: calculate_monthly_payment_def py_pow_def py_div_def power_int_def power_divide)

lemma two_rows:
  "\<exists>rows. amortization_schedule_with_payoffs 16 (3 / 4) 1 1 (Some 2) 20 = Inr rows
     \<and> map balance rows = [4235733931075919 / 301147260519105, 0]"
  by (simp add: amortization_schedule_with_payoffs_def one_year_payment Let_def lump_now_def
      eval_nat_numeral)

section \<open>The claims\<close>

subsection \<open>C1: balances fall to exactly zero\<close>




subsection \<open>C2: the annuity formula\<close>



subsection \<open>C3: no extras is the baseline\<close>




subsection \<open>C4: more extra payment never lengthens the schedule\<close>

text \<open>
  Claim C4.  For valid loan terms and two strategies with the same lump-sum month whose
  monthly extras and lump sums are non-negative and pointwise ordered, both schedules
  are returned and the one with the larger amounts has at most as many rows as the one
  with the smaller amounts, which in turn has at most as many rows as the baseline
  \<open>amortization_schedule\<close>.
\<close>

theorem more_extra_not_longer:
  fixes principal0 rate :: real and years :: int
  assumes "0 < principal0" and "0 < rate" and "rate < 1" and "0 < years"
    and "0 \<le> extra1" and "extra1 \<le> extra2" and "0 \<le> lump1" and "lump1 \<le> lump2"
  shows "\<exists>rows1 rows2 base.
           amortization_schedule_with_payoffs principal0 rate years extra1 lsm lump1 = Inr rows1
         \<and> amortization_schedule_with_payoffs principal0 rate years extra2 lsm lump2 = Inr rows2
         \<and> amortization_schedule principal0 rate years = Inr base
         \<and> length rows2 \<le> length rows1 \<and> length rows1 \<le> length base"
proof -
  obtain bp where bp: "calculate_monthly_payment principal0 rate (of_int years) = Inr bp"
    using standard_payment_years[OF assms(2,4)] by blast
  have q: "0 \<le> 1 + rate / 12" using assms(2) by simp
  define k where "k = nat (years * 12)"
  have "length (balance_trace (1 + rate / 12) (nominal_payments bp extra2 lsm lump2 1 k) principal0)
          \<le> length (balance_trace (1 + rate / 12) (nominal_payments bp extra1 lsm lump1 1 k) principal0)"
    using balance_trace_mono[OF nominal_payments_le[OF assms(6,8)] order_refl q] .
  moreover have "length (balance_trace (1 + rate / 12) (nominal_payments bp extra1 lsm lump1 1 k) principal0)
          \<le> length (balance_trace (1 + rate / 12) (replicate k bp) principal0)"
    using balance_trace_mono[OF replicate_le_nominal_payments[OF assms(5,7)] order_refl q] .
  ultimately show ?thesis
    using bp
    by (simp add: amortization_schedule_def amortization_schedule_with_payoffs_def Let_def
        length_payoffs_loop length_schedule_loop k_def)
qed


theorem more_extra_not_longer_witness:
  "(0::real) < 16 \<and> (0::real) < 3 / 4 \<and> (3 / 4 :: real) < 1 \<and> (0::int) < 1
   \<and> (0::real) \<le> 0 \<and> (0::real) \<le> 1 \<and> (0::real) \<le> 15 \<and> (15::real) \<le> 20
   \<and> (\<exists>rows1 rows2 base.
           amortization_schedule_with_payoffs 16 (3 / 4) 1 0 (Some 1) 15 = Inr rows1
         \<and> amortization_schedule_with_payoffs 16 (3 / 4) 1 1 (Some 1) 20 = Inr rows2
         \<and> amortization_schedule 16 (3 / 4) 1 = Inr base
         \<and> length rows2 \<le> length rows1 \<and> length rows1 \<le> length base)"
  using more_extra_not_longer[of 16 "3 / 4" 1 0 1 15 20 "Some 1"] by simp

subsection \<open>C5: a lump sum that covers the balance ends the schedule\<close>

text \<open>
  Claim C5.  For valid loan terms, a monthly extra that is not negative and a lump-sum
  month \<open>m\<close> between 1 and \<open>years * 12\<close>: if the schedule that
  \<open>amortization_schedule_with_payoffs\<close> returns is not paid off before month \<open>m\<close>
  (\<open>m = 1\<close>, or row \<open>m - 1\<close> exists and has a positive balance) and the lump sum is
  at least the balance at the start of month \<open>m\<close> (the principal for \<open>m = 1\<close>, else
  the closing balance of row \<open>m - 1\<close>), then the schedule has exactly \<open>m\<close> rows and
  its last closing balance is 0.  For \<open>m = 1\<close> this is the one-row schedule.
\<close>

theorem lump_sum_pays_off:
  fixes principal0 rate me lsa :: real and years m :: int
  assumes "0 < principal0" and "0 < rate" and "rate < 1" and "0 < years"
    and "0 \<le> me" and "1 \<le> m" and "m \<le> years * 12"
    and "amortization_schedule_with_payoffs principal0 rate years me (Some m) lsa = Inr rows"
    and "m = 1 \<or> (nat m - 1 \<le> length rows \<and> 0 < balance (rows ! (nat m - 2)))"
    and "(if m = 1 then principal0 else balance (rows ! (nat m - 2))) \<le> lsa"
  shows "length rows = nat m \<and> balance (last rows) = 0"
proof -
  have n: "0 < years * 12" and y: "real_of_int years * 12 = of_int (years * 12)"
    using assms(4) by simp_all
  define k where "k = nat (years * 12)"
  define j where "j = nat m - 1"
  obtain bp where bp: "calculate_monthly_payment principal0 rate (of_int years) = Inr bp"
    using standard_payment_years[OF assms(2,4)] by blast
  define ps where "ps = nominal_payments bp me (Some m) lsa 1 k"
  define tr where "tr = balance_trace (1 + rate / 12) ps principal0"
  have rows: "rows = payoffs_frame 1 0 0
                (payoffs_loop (rate / 12) bp me (Some m) lsa 1 k principal0)"
    using assms(8) bp by (simp add: amortization_schedule_with_payoffs_def Let_def k_def)
  have tr: "map balance rows = tr"
    by (simp add: rows tr_def ps_def payoffs_loop_trace)
  then have len: "length rows = length tr" using length_map by metis
  have q: "1 < 1 + rate / 12" using assms(2) by simp
  have "principal0 * (1 + rate / 12 - 1) * (1 + rate / 12) ^ k
          \<le> bp * ((1 + rate / 12) ^ k - 1)"
    using standard_payment_amortises[OF assms(2) n y bp] by (simp add: k_def)
  then have cover: "principal0 * (1 + rate / 12 - 1) < bp"
    using annuity_covers_interest[OF q assms(1)] by blast
  have lsa: "0 \<le> lsa"
  proof (cases "m = 1")
    case True
    then show ?thesis using assms(1,10) by simp
  next
    case False
    then have "0 < balance (rows ! (nat m - 2))" using assms(9) by simp
    then show ?thesis using assms(10) False by simp
  qed
  have ge: "\<forall>p\<in>set ps. bp \<le> p"
    unfolding ps_def using nominal_payments_ge[OF assms(5) lsa] .
  have jk: "j < length ps" using assms(6,7) by (simp add: ps_def j_def k_def)
  have mj: "1 + int j = m" using assms(6) by (simp add: j_def)
  have "ps ! j = bp + me + lsa"
    using jk mj assms(6) by (simp add: ps_def nth_nominal_payments lump_now_def)
  then have lump: "bp + lsa \<le> ps ! j" using assms(5) by simp
  have j0: "(j = 0) = (m = 1)" using assms(6) by (auto simp: j_def)
  have nth: "j \<noteq> 0 \<Longrightarrow> j \<le> length rows \<Longrightarrow> tr ! (j - 1) = balance (rows ! (nat m - 2))"
  proof -
    assume "j \<noteq> 0" and "j \<le> length rows"
    then have "j - 1 < length rows" by simp
    then have "map balance rows ! (j - 1) = balance (rows ! (j - 1))" by (rule nth_map)
    moreover have "j - 1 = nat m - 2" by (simp add: j_def)
    ultimately show ?thesis using tr by simp
  qed
  have alive: "j = 0 \<or> (j \<le> length tr \<and> 0 < tr ! (j - 1))"
    using assms(9) j0 nth len by (auto simp: j_def)
  have big: "(if j = 0 then principal0 else tr ! (j - 1)) \<le> lsa"
  proof (cases "j = 0")
    case True
    then show ?thesis using assms(10) j0 by simp
  next
    case False
    then have "j \<le> length rows" using assms(9) j0 by (auto simp: j_def)
    then show ?thesis using assms(10) j0 nth False by simp
  qed
  have q1: "1 \<le> 1 + rate / 12" using assms(2) by simp
  have res: "length tr = Suc j \<and> last tr = 0"
    unfolding tr_def
    using balance_trace_lump[OF q1 assms(1) cover ge jk lump alive[unfolded tr_def]
        big[unfolded tr_def]] .
  then have "rows \<noteq> []" using len by auto
  then have "balance (last rows) = last tr" using tr balance_last_map by metis
  moreover have "Suc j = nat m" using assms(6) by (simp add: j_def)
  ultimately show ?thesis using res len by simp
qed

text \<open>
  The theorem for a lump sum of 20 in month 2 (the balance after month 1 is about
  14.07) and for a lump sum equal to the principal in month 1.
\<close>

theorem lump_sum_pays_off_witness:
  "(\<exists>rows. amortization_schedule_with_payoffs 16 (3 / 4) 1 1 (Some 2) 20 = Inr rows
      \<and> 0 < balance (rows ! 0) \<and> balance (rows ! 0) \<le> 20
      \<and> length rows = 2 \<and> balance (last rows) = 0)
   \<and> (\<exists>rows. amortization_schedule_with_payoffs 16 (3 / 4) 1 0 (Some 1) 16 = Inr rows
      \<and> length rows = 1 \<and> balance (last rows) = 0)"
proof -
  obtain rows where r: "amortization_schedule_with_payoffs 16 (3 / 4) 1 1 (Some 2) 20 = Inr rows"
    and b: "map balance rows = [4235733931075919 / 301147260519105, 0]"
    using two_rows by (elim exE conjE)
  from b have len: "length rows = 2" using length_map[of balance rows] by simp
  then have "map balance rows ! 0 = balance (rows ! 0)" by (simp add: nth_map)
  with b have b0: "balance (rows ! 0) = 4235733931075919 / 301147260519105" by simp
  have first: "length rows = 2 \<and> balance (last rows) = 0"
    using lump_sum_pays_off[of 16 "3 / 4" 1 1 2 20 rows] r b0 len by simp
  obtain rows1 where r1: "amortization_schedule_with_payoffs 16 (3 / 4) 1 0 (Some 1) 16 = Inr rows1"
    using with_payoffs_returns[of "3 / 4" 1 16 0 "Some 1" 16] by auto
  have "length rows1 = 1 \<and> balance (last rows1) = 0"
    using lump_sum_pays_off[of 16 "3 / 4" 1 0 1 16 rows1] r1 by simp
  with first r r1 b0 show ?thesis by simp
qed

subsection \<open>C6: the first row of a refinance schedule\<close>



subsection \<open>C7: refinancing a loan that is already paid off\<close>

text \<open>
  Claim C7 says that with a carry balance of 0 the refinance schedule is empty.  It is
  not: the loop body runs once before the balance is tested, so for a carry balance 0,
  rate 3/64, one year, payment 0, start month 5 and offsets 10 and 20 the schedule has
  one row, for month 6, with zero balance, interest and payment and the offsets as its
  cumulative totals.
\<close>

theorem refinance_paid_off_counterexample:
  "amortization_refinance 0 (3 / 64) 1 0 5 10 20 =
     [\<lparr>month = 6, balance = 0, interest = 0, payment = 0, cum_interest = 10, cum_payment = 20\<rparr>]
   \<and> length (amortization_refinance 0 (3 / 64) 1 0 5 10 20) = 1"
  by (simp add: amortization_refinance_def py_int_def Let_def eval_nat_numeral)

text \<open>
  Claim C7 as amended.  When the refinance month lies beyond the last row of a
  non-empty pre-refinance schedule, \<open>main\<close> reads the carry balance and the
  cumulative totals from that last row; and for a carry balance 0 and a payment that is
  not negative, \<open>amortization_refinance\<close> returns exactly one row, for month
  \<open>start_month + 1\<close>, with balance, interest and payment 0 and with the supplied
  offsets unchanged as cumulative totals (no row at all only when \<open>int(years * 12)\<close>
  is below 1).
\<close>

theorem refinance_paid_off:
  fixes rate years mp :: real
  shows "(pre_refi \<noteq> [] \<and> int (length pre_refi) < lump_month \<longrightarrow>
            transition_record pre_refi lump_month = Inr (last pre_refi))
       \<and> (0 \<le> mp \<longrightarrow>
            amortization_refinance 0 rate years mp sm ci cp =
              (if 1 \<le> py_int (years * 12)
               then [\<lparr>month = sm + 1, balance = 0, interest = 0, payment = 0,
                      cum_interest = ci, cum_payment = cp\<rparr>]
               else []))"
proof (intro conjI impI)
  assume "pre_refi \<noteq> [] \<and> int (length pre_refi) < lump_month"
  then show "transition_record pre_refi lump_month = Inr (last pre_refi)"
    by (simp add: transition_record_def iloc_last)
next
  assume mp: "0 \<le> mp"
  show "amortization_refinance 0 rate years mp sm ci cp =
              (if 1 \<le> py_int (years * 12)
               then [\<lparr>month = sm + 1, balance = 0, interest = 0, payment = 0,
                      cum_interest = ci, cum_payment = cp\<rparr>]
               else [])"
  proof (cases "1 \<le> py_int (years * 12)")
    case True
    then obtain k where k: "nat (py_int (years * 12)) = Suc k"
      by (cases "nat (py_int (years * 12))") simp_all
    show ?thesis
      using True refinance_loop_zero_balance[OF mp]
      by (simp add: amortization_refinance_def k del: refinance_loop.simps)
  next
    case False
    then have "nat (py_int (years * 12)) = 0" by simp
    with False show ?thesis by (simp add: amortization_refinance_def)
  qed
qed

theorem refinance_paid_off_witness:
  "transition_record
     [\<lparr>month = 1, balance = 0, interest = 1, payment = 17, cum_interest = 1, cum_payment = 17,
       sched_principal = 1, extra_principal = 15\<rparr>] 5
     = Inr \<lparr>month = 1, balance = 0, interest = 1, payment = 17, cum_interest = 1,
            cum_payment = 17, sched_principal = 1, extra_principal = 15\<rparr>
   \<and> amortization_refinance 0 (3 / 64) (7 / 12) 100 5 1 17 =
       [\<lparr>month = 6, balance = 0, interest = 0, payment = 0, cum_interest = 1, cum_payment = 17\<rparr>]
   \<and> amortization_refinance 0 (3 / 64) 0 100 5 1 17 = []"
proof -
  have a: "1 \<le> py_int ((7 / 12 :: real) * 12)" and b: "\<not> 1 \<le> py_int ((0 :: real) * 12)"
    by (simp_all add: py_int_def)
  show ?thesis
    using refinance_paid_off[of "[\<lparr>month = 1, balance = 0, interest = 1, payment = 17,
        cum_interest = 1, cum_payment = 17, sched_principal = 1, extra_principal = 15\<rparr>]"
        5 100 "3 / 64" "7 / 12" 5 1 17]
      refinance_paid_off[of "[]" 0 100 "3 / 64" 0 5 1 17] a b
    by simp
qed

subsection \<open>C8: zero rate and non-positive years\<close>





subsection \<open>C9: the loop bound truncates fractional years\<close>



subsection \<open>C10: payment = interest + principal paid\<close>




end
